theory Spec2Isabelle
  imports Complex_Main "HOL-Library.Log_Nat" "HOL-Library.Multiset"
begin

section \<open>Data model\<close>

text \<open>
  The tables of the Django applications \<open>users\<close>, \<open>locations\<close>, \<open>cafes\<close> and \<open>reviews\<close>,
  restricted to the columns that the rating aggregation, the location counter and the
  review endpoints read or write. A primary key is a UUID; it is modelled as a natural
  number. A model instance held by Python code has the same fields as a row, so one record
  type serves for both; the database is the tuple of the tables, each a list of rows (of
  the users only the keys). The database is the one that \<open>settings.py\<close> names, SQLite,
  in autocommit mode (there is no \<open>ATOMIC_REQUESTS\<close>): a statement that violates a
  constraint writes nothing, and what earlier statements of the same request wrote stays.

  Ratings of a review are \<open>PositiveSmallIntegerField\<close>s, the four dimension ratings nullable.
  The averages of a cafe are \<open>DecimalField(max_digits=3, decimal_places=2)\<close>. The value that
  an instance holds in such a field is a Python number: an \<open>int\<close>, a \<open>float\<close> (a double,
  given by the rational it denotes) or a \<open>Decimal\<close>; a row holds a \<open>Decimal\<close> with two
  decimal places. \<open>cafe_count\<close> and \<open>rating_count\<close> are \<open>PositiveIntegerField\<close>s. The text of
  a review is a Python string, a list of code points. Field names of the cafe that clash
  with those of the review carry the prefix \<open>cafe_\<close>.
\<close>

type_synonym uuid = nat

type_synonym str = "nat list"

datatype error =
    DatabaseError          \<comment> \<open>\<open>save(update_fields=...)\<close> that updated no row\<close>
  | IntegrityError         \<comment> \<open>a key, a foreign key or a check constraint violated\<close>
  | InvalidOperation       \<comment> \<open>\<open>decimal.InvalidOperation\<close>: more digits than the context allows\<close>
  | DoesNotExist           \<comment> \<open>a related object whose row is gone\<close>
  | Http404                \<comment> \<open>\<open>get_object_or_404\<close>\<close>
  | ValidationError        \<comment> \<open>raised by a serializer\<close>
  | NotAuthenticated       \<comment> \<open>\<open>IsAuthenticated\<close> refused an anonymous request\<close>
  | PermissionDenied       \<comment> \<open>\<open>IsOwnerOrAdmin\<close> refused the object\<close>
  | Throttled              \<comment> \<open>\<open>ReviewCreateThrottle\<close> refused the request\<close>

datatype number = PyInt int | PyFloat rat | PyDecimal rat

record review =
  review_pk :: uuid
  cafe_id :: uuid
  user_id :: uuid
  rating_overall :: nat
  rating_wifi :: "nat option"
  rating_power :: "nat option"
  rating_noise :: "nat option"
  rating_coffee :: "nat option"
  review_text :: str
  review_is_active :: bool

record cafe =
  cafe_pk :: uuid
  slug :: string
  location_id :: uuid
  is_active :: bool
  rating_avg :: number
  rating_count :: nat
  cafe_rating_wifi :: number
  cafe_rating_power :: number
  cafe_rating_noise :: number
  cafe_rating_coffee :: number

record location =
  location_pk :: uuid
  cafe_count :: nat

record db =
  users :: "uuid list"
  locations :: "location list"
  cafes :: "cafe list"
  reviews :: "review list"

section \<open>Floats and decimals\<close>

text \<open>
  Both conversions of a number that occur on the way from the reviews to the cafe row are
  roundings to a fixed number of significant digits, ties to even: a double has 53 binary
  digits, and \<open>decimal.Context(prec=3)\<close> keeps 3 decimal digits. \<open>exponent b x\<close> is the
  position of the leading digit of \<open>x \<noteq> 0\<close> in base \<open>b\<close>, that is the \<open>e\<close> with
  \<open>b\<^sup>e \<le> \<bar>x\<bar> < b\<^sup>e\<^sup>+\<^sup>1\<close>: the number of digits of the integer part gives it for \<open>\<bar>x\<bar> \<ge> 1\<close>,
  that of the integer part of \<open>1 / \<bar>x\<bar>\<close> gives it up to one for \<open>\<bar>x\<bar> < 1\<close>. For the averages
  that occur the range of the exponent of a double plays no role.
\<close>

definition round_half_even :: "rat \<Rightarrow> int" where
  "round_half_even x =
     (let n = \<lfloor>x\<rfloor>; r = x - of_int n
      in if r < 1 / 2 then n else if 1 / 2 < r then n + 1 else if even n then n else n + 1)"

definition exponent :: "nat \<Rightarrow> rat \<Rightarrow> int" where
  "exponent b x =
     (let a = \<bar>x\<bar>;
          e = (if 1 \<le> a then int (floorlog b (nat \<lfloor>a\<rfloor>)) - 1
               else 1 - int (floorlog b (nat \<lfloor>1 / a\<rfloor>)))
      in if of_nat b powi e \<le> a then e else e - 1)"

definition round_significant :: "nat \<Rightarrow> nat \<Rightarrow> rat \<Rightarrow> rat" where
  "round_significant b p x =
     (if x = 0 then 0
      else (let u = of_nat b powi (exponent b x - (int p - 1))
            in of_int (round_half_even (x / u)) * u))"

definition double :: "rat \<Rightarrow> rat" where
  "double x = round_significant 2 53 x"

definition create_decimal_from_float :: "nat \<Rightarrow> rat \<Rightarrow> rat" where
  "create_decimal_from_float prec f = round_significant 10 prec f"

text \<open>
  What Django does with the value of a \<open>DecimalField(max_digits=3, decimal_places=2)\<close> when
  it writes the column. \<open>to_python\<close> turns the value into a \<open>Decimal\<close>: a float through
  \<open>create_decimal_from_float\<close> of the context with \<open>prec = max_digits\<close>, an int or a
  \<open>Decimal\<close> as it is. \<open>format_number\<close> quantizes the result to two decimal places in a
  context of precision 3; \<open>quantize\<close> raises \<open>InvalidOperation\<close> (here \<open>None\<close>) when the result
  has more than three digits. A \<open>Decimal\<close> is given by the rational it denotes.
\<close>

definition to_python :: "number \<Rightarrow> rat" where
  "to_python v =
     (case v of
        PyFloat f \<Rightarrow> create_decimal_from_float 3 f
      | PyInt k \<Rightarrow> of_int k
      | PyDecimal q \<Rightarrow> q)"

definition format_number :: "rat \<Rightarrow> rat option" where
  "format_number v =
     (let q = of_int (round_half_even (v * 100)) / 100
      in if \<bar>q\<bar> < 10 then Some q else None)"

definition get_db_prep_save :: "number \<Rightarrow> number option" where
  "get_db_prep_save v = map_option PyDecimal (format_number (to_python v))"

section \<open>Rating aggregator: \<open>Cafe.update_rating_stats\<close>\<close>

text \<open>
  \<open>Avg\<close> is the SQL aggregate over one column of the selected rows: it skips NULLs while
  it accumulates the sum and the number of values, and is NULL (\<open>None\<close>) when no value was
  seen; otherwise it is the floating-point quotient of the two, which is the exact
  quotient rounded to a double. \<open>Count("id")\<close> counts the selected rows. \<open>or_0\<close> is Python's
  \<open>x or 0\<close> for a float or \<open>None\<close>, \<open>count_or_0\<close> the same for the count.
\<close>

definition avg_step :: "nat \<times> nat \<Rightarrow> nat option \<Rightarrow> nat \<times> nat" where
  "avg_step acc v = (case v of None \<Rightarrow> acc | Some x \<Rightarrow> (fst acc + x, snd acc + 1))"

definition Avg :: "nat option list \<Rightarrow> rat option" where
  "Avg vs = (let acc = foldl avg_step (0, 0) vs
             in if snd acc = 0 then None
                else Some (double (of_nat (fst acc) / of_nat (snd acc))))"

definition Count :: "'a list \<Rightarrow> nat option" where
  "Count rows = Some (length rows)"

definition or_0 :: "rat option \<Rightarrow> number" where
  "or_0 v = (case v of None \<Rightarrow> PyInt 0 | Some f \<Rightarrow> if f = 0 then PyInt 0 else PyFloat f)"

definition count_or_0 :: "nat option \<Rightarrow> nat" where
  "count_or_0 v = (case v of None \<Rightarrow> 0 | Some n \<Rightarrow> if n = 0 then 0 else n)"

text \<open>
  The signal handlers of \<open>cafes/signals.py\<close>. \<open>cafe_pre_save\<close> reads the stored row of the
  instance and remembers its location and activity (the attributes \<open>_old_location_id\<close> and
  \<open>_old_is_active\<close>, returned here as a pair); the primary key of an instance is always
  set, because the field has a default. \<open>update_location_cafe_count\<close> is the relative
  update \<open>cafe_count = F("cafe_count") + delta\<close> of the rows with that id; the column is a
  \<open>PositiveIntegerField\<close>, whose check constraint \<open>cafe_count >= 0\<close> makes the statement
  fail with \<open>IntegrityError\<close>, and change nothing, when a row would get a negative count.
  An error of \<open>cafe_post_save\<close> carries the database that the handler leaves behind.
\<close>

definition cafe_pre_save :: "db \<Rightarrow> cafe \<Rightarrow> uuid option \<times> bool option" where
  "cafe_pre_save d instance =
     (case find (\<lambda>c. cafe_pk c = cafe_pk instance) (cafes d) of
        Some old_instance \<Rightarrow> (Some (location_id old_instance), Some (is_active old_instance))
      | None \<Rightarrow> (None, None))"

definition update_location_cafe_count :: "db \<Rightarrow> uuid option \<Rightarrow> int \<Rightarrow> error + db" where
  "update_location_cafe_count d loc_id delta =
     (case loc_id of
        None \<Rightarrow> Inr d
      | Some l \<Rightarrow>
          if list_ex (\<lambda>r. location_pk r = l \<and> int (cafe_count r) + delta < 0) (locations d)
          then Inl IntegrityError
          else Inr (d\<lparr>locations :=
                 map (\<lambda>r. if location_pk r = l
                            then r\<lparr>cafe_count := nat (int (cafe_count r) + delta)\<rparr> else r)
                     (locations d)\<rparr>))"

definition cafe_post_save ::
  "db \<Rightarrow> cafe \<Rightarrow> bool \<Rightarrow> uuid option \<times> bool option \<Rightarrow> error \<times> db + db" where
  "cafe_post_save d instance created old =
     (if created then
        (if is_active instance
         then (case update_location_cafe_count d (Some (location_id instance)) 1 of
                 Inl e \<Rightarrow> Inl (e, d) | Inr d1 \<Rightarrow> Inr d1)
         else Inr d)
      else
        (let old_location_id = fst old; old_is_active = snd old in
         if old_location_id \<noteq> None \<and> old_location_id \<noteq> Some (location_id instance) then
           (case (if old_is_active = Some True
                  then update_location_cafe_count d old_location_id (- 1) else Inr d) of
              Inl e \<Rightarrow> Inl (e, d)
            | Inr d1 \<Rightarrow>
                if is_active instance
                then (case update_location_cafe_count d1 (Some (location_id instance)) 1 of
                        Inl e \<Rightarrow> Inl (e, d1) | Inr d2 \<Rightarrow> Inr d2)
                else Inr d1)
         else if old_is_active \<noteq> Some (is_active instance) then
           (case update_location_cafe_count d (Some (location_id instance))
                   (if is_active instance then 1 else - 1) of
              Inl e \<Rightarrow> Inl (e, d) | Inr d1 \<Rightarrow> Inr d1)
         else Inr d))"

definition cafe_post_delete :: "db \<Rightarrow> cafe \<Rightarrow> error + db" where
  "cafe_post_delete d instance =
     (if is_active instance
      then update_location_cafe_count d (Some (location_id instance)) (- 1)
      else Inr d)"

text \<open>
  \<open>Model.save\<close> of a cafe. The value of each decimal field is prepared for its column
  before any statement is sent; the other fields are stored as they are. With
  \<open>update_fields\<close> only the six rating columns of the row with the instance's key are
  written, and Django raises \<open>DatabaseError\<close> when that update touched no row. Without
  \<open>update_fields\<close>, an instance that was loaded from the database (\<open>adding\<close> is false)
  replaces its row if there is one and is inserted otherwise; a new instance (\<open>adding\<close> is
  true) is inserted at once, since the key has a default. A row that is written in full
  must refer to an existing location and must not take the slug of another row. Both
  kinds of save send \<open>pre_save\<close> before and \<open>post_save\<close> after the write; the instance itself
  keeps its values. The defaults that \<open>Cafe.save\<close> fills in beforehand (slug, category
  colour, time zone) concern columns that are not modelled; the slug of an instance is
  taken as it is after that step.
\<close>

definition cafe_row :: "cafe \<Rightarrow> cafe option" where
  "cafe_row instance =
     (case get_db_prep_save (rating_avg instance) of None \<Rightarrow> None | Some a \<Rightarrow>
      case get_db_prep_save (cafe_rating_wifi instance) of None \<Rightarrow> None | Some w \<Rightarrow>
      case get_db_prep_save (cafe_rating_power instance) of None \<Rightarrow> None | Some p \<Rightarrow>
      case get_db_prep_save (cafe_rating_noise instance) of None \<Rightarrow> None | Some n \<Rightarrow>
      case get_db_prep_save (cafe_rating_coffee instance) of None \<Rightarrow> None | Some c \<Rightarrow>
        Some (instance\<lparr>rating_avg := a, cafe_rating_wifi := w, cafe_rating_power := p,
                        cafe_rating_noise := n, cafe_rating_coffee := c\<rparr>))"

definition write_ratings :: "cafe \<Rightarrow> cafe \<Rightarrow> cafe" where
  "write_ratings new old =
     old\<lparr>rating_avg := rating_avg new, rating_count := rating_count new,
         cafe_rating_wifi := cafe_rating_wifi new, cafe_rating_power := cafe_rating_power new,
         cafe_rating_noise := cafe_rating_noise new,
         cafe_rating_coffee := cafe_rating_coffee new\<rparr>"

definition cafe_exists :: "db \<Rightarrow> uuid \<Rightarrow> bool" where
  "cafe_exists d pk = (find (\<lambda>c. cafe_pk c = pk) (cafes d) \<noteq> None)"

definition location_exists :: "db \<Rightarrow> uuid \<Rightarrow> bool" where
  "location_exists d pk = list_ex (\<lambda>l. location_pk l = pk) (locations d)"

definition slug_taken :: "db \<Rightarrow> cafe \<Rightarrow> bool" where
  "slug_taken d instance =
     list_ex (\<lambda>c. cafe_pk c \<noteq> cafe_pk instance \<and> slug c = slug instance) (cafes d)"

definition cafe_save_ratings :: "db \<Rightarrow> cafe \<Rightarrow> error \<times> db + db" where
  "cafe_save_ratings d instance =
     (let old = cafe_pre_save d instance in
      case cafe_row instance of
        None \<Rightarrow> Inl (InvalidOperation, d)
      | Some new \<Rightarrow>
          if \<not> cafe_exists d (cafe_pk instance) then Inl (DatabaseError, d)
          else
            cafe_post_save
              (d\<lparr>cafes := map (\<lambda>c. if cafe_pk c = cafe_pk instance
                                    then write_ratings new c else c) (cafes d)\<rparr>)
              instance False old)"

definition cafe_save :: "db \<Rightarrow> cafe \<Rightarrow> bool \<Rightarrow> error \<times> db + db" where
  "cafe_save d instance adding =
     (let old = cafe_pre_save d instance in
      case cafe_row instance of
        None \<Rightarrow> Inl (InvalidOperation, d)
      | Some new \<Rightarrow>
          if \<not> adding \<and> cafe_exists d (cafe_pk instance) then
            (if \<not> location_exists d (location_id instance) \<or> slug_taken d instance
             then Inl (IntegrityError, d)
             else cafe_post_save
                    (d\<lparr>cafes := map (\<lambda>c. if cafe_pk c = cafe_pk instance then new else c)
                                    (cafes d)\<rparr>)
                    instance False old)
          else
            (if cafe_exists d (cafe_pk instance) \<or> \<not> location_exists d (location_id instance)
                \<or> slug_taken d instance
             then Inl (IntegrityError, d)
             else cafe_post_save (d\<lparr>cafes := cafes d @ [new]\<rparr>) instance True old))"

text \<open>
  \<open>Model.delete\<close> of a cafe removes the row and, by \<open>on_delete=CASCADE\<close>, the reviews of the
  cafe, and sends \<open>post_delete\<close>; all of this runs in one transaction, so an error of the
  handler undoes the deletion and leaves the database as it was.
\<close>

definition cafe_delete :: "db \<Rightarrow> cafe \<Rightarrow> error + db" where
  "cafe_delete d instance =
     cafe_post_delete
       (d\<lparr>cafes := filter (\<lambda>c. cafe_pk c \<noteq> cafe_pk instance) (cafes d),
          reviews := filter (\<lambda>r. cafe_id r \<noteq> cafe_pk instance) (reviews d)\<rparr>)
       instance"

definition active_reviews :: "db \<Rightarrow> cafe \<Rightarrow> review list" where
  "active_reviews d self =
     filter (\<lambda>r. cafe_id r = cafe_pk self \<and> review_is_active r) (reviews d)"

definition update_rating_stats :: "db \<Rightarrow> cafe \<Rightarrow> error \<times> db + db \<times> cafe" where
  "update_rating_stats d self =
     (let rows = active_reviews d self;
          avg_overall = Avg (map (\<lambda>r. Some (rating_overall r)) rows);
          avg_wifi = Avg (map rating_wifi rows);
          avg_power = Avg (map rating_power rows);
          avg_noise = Avg (map rating_noise rows);
          avg_coffee = Avg (map rating_coffee rows);
          count = Count rows;
          self1 = self\<lparr>rating_avg := or_0 avg_overall,
                        cafe_rating_wifi := or_0 avg_wifi,
                        cafe_rating_power := or_0 avg_power,
                        cafe_rating_noise := or_0 avg_noise,
                        cafe_rating_coffee := or_0 avg_coffee,
                        rating_count := count_or_0 count\<rparr>
      in case cafe_save_ratings d self1 of
           Inl e \<Rightarrow> Inl e
         | Inr d' \<Rightarrow> Inr (d', self1))"

section \<open>Reviews: \<open>Review.save\<close>, \<open>Review.delete\<close>\<close>

text \<open>
  The three ways in which the code writes a review row: \<open>objects.create\<close> (an insert),
  \<open>save(update_fields=["is_active"])\<close>, and a plain \<open>save()\<close> of an instance that was loaded
  from the database (an update, or an insert if the row is gone). The table has the
  primary key, \<open>unique_together = ["cafe", "user"]\<close> and the foreign keys to the cafe and
  to the user. An error carries the database as it is when the exception leaves the
  method.
\<close>

datatype save_kind = Plain | Force_insert | Update_is_active

definition review_exists :: "db \<Rightarrow> uuid \<Rightarrow> bool" where
  "review_exists d pk = list_ex (\<lambda>r. review_pk r = pk) (reviews d)"

definition unique_together_taken :: "db \<Rightarrow> review \<Rightarrow> bool" where
  "unique_together_taken d self =
     list_ex (\<lambda>r. review_pk r \<noteq> review_pk self \<and> cafe_id r = cafe_id self
                     \<and> user_id r = user_id self) (reviews d)"

definition foreign_keys_ok :: "db \<Rightarrow> review \<Rightarrow> bool" where
  "foreign_keys_ok d self = (cafe_exists d (cafe_id self) \<and> user_id self \<in> set (users d))"

definition review_insert :: "db \<Rightarrow> review \<Rightarrow> error + db" where
  "review_insert d self =
     (if review_exists d (review_pk self) \<or> unique_together_taken d self
         \<or> \<not> foreign_keys_ok d self
      then Inl IntegrityError
      else Inr (d\<lparr>reviews := reviews d @ [self]\<rparr>))"

definition review_update :: "db \<Rightarrow> review \<Rightarrow> error + db" where
  "review_update d self =
     (if unique_together_taken d self \<or> \<not> foreign_keys_ok d self then Inl IntegrityError
      else Inr (d\<lparr>reviews := map (\<lambda>r. if review_pk r = review_pk self then self else r)
                                    (reviews d)\<rparr>))"

definition review_super_save :: "db \<Rightarrow> review \<Rightarrow> save_kind \<Rightarrow> error + db" where
  "review_super_save d self kind =
     (case kind of
        Force_insert \<Rightarrow> review_insert d self
      | Update_is_active \<Rightarrow>
          if \<not> review_exists d (review_pk self) then Inl DatabaseError
          else Inr (d\<lparr>reviews :=
                        map (\<lambda>r. if review_pk r = review_pk self
                                  then r\<lparr>review_is_active := review_is_active self\<rparr> else r)
                            (reviews d)\<rparr>)
      | Plain \<Rightarrow>
          if review_exists d (review_pk self) then review_update d self
          else review_insert d self)"

text \<open>
  \<open>self.cafe\<close>: the related object that the instance has cached (\<open>Some\<close>), or else the
  row fetched by its key, \<open>Cafe.DoesNotExist\<close> when there is none.
  \<open>cafe_update_rating_stats\<close> is the statement \<open>self.cafe.update_rating_stats()\<close> with which
  \<open>Review.save\<close> ends.
\<close>

definition related_cafe :: "db \<Rightarrow> review \<Rightarrow> cafe option \<Rightarrow> error + cafe" where
  "related_cafe d self cached =
     (case cached of
        Some c \<Rightarrow> Inr c
      | None \<Rightarrow>
          (case find (\<lambda>c. cafe_pk c = cafe_id self) (cafes d) of
             None \<Rightarrow> Inl DoesNotExist
           | Some c \<Rightarrow> Inr c))"

definition cafe_update_rating_stats ::
  "db \<Rightarrow> review \<Rightarrow> cafe option \<Rightarrow> error \<times> db + db \<times> cafe" where
  "cafe_update_rating_stats d self cached =
     (case related_cafe d self cached of
        Inl e \<Rightarrow> Inl (e, d)
      | Inr c \<Rightarrow> update_rating_stats d c)"

definition review_save ::
  "db \<Rightarrow> review \<Rightarrow> save_kind \<Rightarrow> cafe option \<Rightarrow> error \<times> db + db \<times> cafe" where
  "review_save d self kind cached =
     (case review_super_save d self kind of
        Inl e \<Rightarrow> Inl (e, d)
      | Inr d1 \<Rightarrow> cafe_update_rating_stats d1 self cached)"

definition review_delete ::
  "db \<Rightarrow> review \<Rightarrow> cafe option \<Rightarrow> error \<times> db + db \<times> cafe" where
  "review_delete d self cached =
     (case related_cafe d self cached of
        Inl e \<Rightarrow> Inl (e, d)
      | Inr c \<Rightarrow>
          update_rating_stats
            (d\<lparr>reviews := filter (\<lambda>r. review_pk r \<noteq> review_pk self) (reviews d)\<rparr>) c)"

section \<open>Review endpoints: \<open>ReviewCreateSerializer\<close>, \<open>CafeReviewViewSet\<close>\<close>

text \<open>
  The payload of a request is a review record of which the serializer reads the five
  ratings and the text. A rating field carries the validators \<open>MinValueValidator(1)\<close> and
  \<open>MaxValueValidator(5)\<close> of the model; the text has \<open>max_length=2000\<close> and is stripped of
  surrounding white space (\<open>str.strip\<close>; \<open>is_space\<close> lists the code points that Python takes
  for white space). Field validation comes first, \<open>validate\<close> after it. The user of a
  request is \<open>None\<close> when anonymous, else the user's key and whether the user is an admin.
\<close>

definition validate_rating_overall :: "nat \<Rightarrow> error + nat" where
  "validate_rating_overall v = (if \<not> (1 \<le> v \<and> v \<le> 5) then Inl ValidationError else Inr v)"

definition rating_validators :: "nat option \<Rightarrow> bool" where
  "rating_validators v = (case v of None \<Rightarrow> True | Some x \<Rightarrow> 1 \<le> x \<and> x \<le> 5)"

definition is_space :: "nat \<Rightarrow> bool" where
  "is_space c =
     (c \<in> set [9, 10, 11, 12, 13, 28, 29, 30, 31, 32, 133, 160, 5760, 8192, 8193, 8194, 8195,
               8196, 8197, 8198, 8199, 8200, 8201, 8202, 8232, 8233, 8239, 8287, 12288])"

definition strip :: "str \<Rightarrow> str" where
  "strip s = rev (dropWhile is_space (rev (dropWhile is_space s)))"

definition validate_text :: "str \<Rightarrow> error + str" where
  "validate_text v = (if length (strip v) < 10 then Inl ValidationError else Inr (strip v))"

definition validate :: "db \<Rightarrow> uuid \<Rightarrow> cafe \<Rightarrow> review \<Rightarrow> error + review" where
  "validate d user c attrs =
     (if list_ex (\<lambda>r. user_id r = user \<and> cafe_id r = cafe_pk c) (reviews d)
      then Inl ValidationError
      else Inr attrs)"

definition is_valid :: "db \<Rightarrow> uuid \<Rightarrow> cafe \<Rightarrow> review \<Rightarrow> error + review" where
  "is_valid d user c data =
     (if \<not> (rating_validators (Some (rating_overall data)) \<and> rating_validators (rating_wifi data)
            \<and> rating_validators (rating_power data) \<and> rating_validators (rating_noise data)
            \<and> rating_validators (rating_coffee data) \<and> length (strip (review_text data)) \<le> 2000)
      then Inl ValidationError
      else
        (case validate_rating_overall (rating_overall data) of
           Inl e \<Rightarrow> Inl e
         | Inr v \<Rightarrow>
             (case validate_text (strip (review_text data)) of
                Inl e \<Rightarrow> Inl e
              | Inr t \<Rightarrow> validate d user c (data\<lparr>rating_overall := v, review_text := t\<rparr>))))"

definition get_cafe :: "db \<Rightarrow> string \<Rightarrow> cafe option" where
  "get_cafe d cafe_slug = find (\<lambda>c. slug c = cafe_slug \<and> is_active c) (cafes d)"

text \<open>
  \<open>create\<close>: permission and throttle are checked before the view runs (\<open>throttled\<close> is the
  verdict of \<open>ReviewCreateThrottle\<close>, which depends on the cache); the cafe of the URL is
  looked up for the serializer context. The serializer's \<open>create\<close> sets the user and the
  cafe and calls \<open>Review.objects.create\<close>; the new row gets a fresh key (the argument
  \<open>new_pk\<close>, the default \<open>uuid4\<close> of the field) and is active. The cafe object of the
  context is the one that \<open>Review.save\<close> finds cached on the new review.
\<close>

definition create ::
  "db \<Rightarrow> (uuid \<times> bool) option \<Rightarrow> bool \<Rightarrow> string \<Rightarrow> review \<Rightarrow> uuid
     \<Rightarrow> error \<times> db + db \<times> review" where
  "create d request_user throttled cafe_slug data new_pk =
     (case request_user of
        None \<Rightarrow> Inl (NotAuthenticated, d)
      | Some user \<Rightarrow>
          if throttled then Inl (Throttled, d)
          else
            (case get_cafe d cafe_slug of
               None \<Rightarrow> Inl (Http404, d)
             | Some c \<Rightarrow>
                 (case is_valid d (fst user) c data of
                    Inl e \<Rightarrow> Inl (e, d)
                  | Inr attrs \<Rightarrow>
                      (let r = attrs\<lparr>review_pk := new_pk, user_id := fst user,
                                      cafe_id := cafe_pk c, review_is_active := True\<rparr>
                       in case review_save d r Force_insert (Some c) of
                            Inl e \<Rightarrow> Inl e
                          | Inr res \<Rightarrow> Inr (fst res, r)))))"

text \<open>
  \<open>destroy\<close>: \<open>get_object\<close> looks the review up among the active reviews of the cafe and
  checks \<open>IsOwnerOrAdmin\<close>; the review is then saved inactive, which recomputes the
  ratings once inside \<open>Review.save\<close>, and the view recomputes them a second time on the
  cafe object that the review has cached by then.
\<close>

definition get_object :: "db \<Rightarrow> uuid \<times> bool \<Rightarrow> string \<Rightarrow> uuid \<Rightarrow> error + review" where
  "get_object d user cafe_slug pk =
     (case get_cafe d cafe_slug of
        None \<Rightarrow> Inl Http404
      | Some c \<Rightarrow>
          (case find (\<lambda>r. review_pk r = pk \<and> cafe_id r = cafe_pk c \<and> review_is_active r)
                     (reviews d) of
             None \<Rightarrow> Inl Http404
           | Some r \<Rightarrow>
               if snd user \<or> user_id r = fst user then Inr r else Inl PermissionDenied))"

definition destroy ::
  "db \<Rightarrow> (uuid \<times> bool) option \<Rightarrow> string \<Rightarrow> uuid \<Rightarrow> error \<times> db + db" where
  "destroy d request_user cafe_slug pk =
     (case request_user of
        None \<Rightarrow> Inl (NotAuthenticated, d)
      | Some user \<Rightarrow>
          (case get_object d user cafe_slug pk of
             Inl e \<Rightarrow> Inl (e, d)
           | Inr instance \<Rightarrow>
               (case review_save d (instance\<lparr>review_is_active := False\<rparr>) Update_is_active None of
                  Inl e \<Rightarrow> Inl e
                | Inr res \<Rightarrow>
                    (case update_rating_stats (fst res) (snd res) of
                       Inl e \<Rightarrow> Inl e
                     | Inr res2 \<Rightarrow> Inr (fst res2)))))"

section \<open>What the specification says\<close>

text \<open>
  The arithmetic mean of a list of ratings, 0 for the empty list; the ratings that the
  active reviews of a cafe give in one dimension; a number rounded to two decimal places;
  a value that a column of three digits, two of them after the point, holds within
  \<open>[0, 5]\<close>. The number of active cafes that refer to a location, the statement that every
  location row carries that number, and the count that the row of a location carries.
  At most one review row for a user and a cafe.
\<close>

definition mean :: "nat list \<Rightarrow> rat" where
  "mean xs = (if xs = [] then 0 else of_nat (sum_list xs) / of_nat (length xs))"

definition ratings_set :: "(review \<Rightarrow> nat option) \<Rightarrow> review list \<Rightarrow> nat list" where
  "ratings_set col rs = concat (map (\<lambda>r. case col r of None \<Rightarrow> [] | Some x \<Rightarrow> [x]) rs)"

definition round2 :: "rat \<Rightarrow> rat" where
  "round2 x = of_int (round_half_even (x * 100)) / 100"

definition fits_column :: "number \<Rightarrow> bool" where
  "fits_column v =
     (case v of
        PyDecimal q \<Rightarrow> of_int \<lfloor>q * 100\<rfloor> = q * 100 \<and> 0 \<le> q \<and> q \<le> 5
      | PyInt k \<Rightarrow> False
      | PyFloat f \<Rightarrow> False)"

definition active_cafes_at :: "db \<Rightarrow> uuid \<Rightarrow> nat" where
  "active_cafes_at d l = length (filter (\<lambda>c. is_active c \<and> location_id c = l) (cafes d))"

definition counts_consistent :: "db \<Rightarrow> bool" where
  "counts_consistent d =
     list_all (\<lambda>l. cafe_count l = active_cafes_at d (location_pk l)) (locations d)"

definition count_of :: "db \<Rightarrow> uuid \<Rightarrow> nat option" where
  "count_of d l = map_option cafe_count (find (\<lambda>r. location_pk r = l) (locations d))"

definition one_review_per_pair :: "db \<Rightarrow> bool" where
  "one_review_per_pair d = distinct (map (\<lambda>r. (user_id r, cafe_id r)) (reviews d))"

section \<open>Auxiliary notions and example states\<close>

text \<open>
  The values of a column that are not NULL; the mean of a list of ratings as the Python
  code holds it after \<open>Avg(...) or 0\<close>; the instance that \<open>update_rating_stats\<close> hands to
  \<open>save\<close>, written with the means of the specification; the keys and counts of the
  location rows as integers. The constraints of the tables that the statements maintain:
  the keys of the cafes and of the reviews are unique, and every review refers to a cafe
  and to a user that exist.
\<close>

definition set_values :: "'a option list \<Rightarrow> 'a list" where
  "set_values vs = concat (map (\<lambda>v. case v of None \<Rightarrow> [] | Some x \<Rightarrow> [x]) vs)"

definition float_mean :: "nat list \<Rightarrow> number" where
  "float_mean xs = or_0 (Some (double (mean xs)))"

definition recomputed :: "db \<Rightarrow> cafe \<Rightarrow> cafe" where
  "recomputed d self =
     self\<lparr>rating_avg := float_mean (map rating_overall (active_reviews d self)),
          cafe_rating_wifi := float_mean (ratings_set rating_wifi (active_reviews d self)),
          cafe_rating_power := float_mean (ratings_set rating_power (active_reviews d self)),
          cafe_rating_noise := float_mean (ratings_set rating_noise (active_reviews d self)),
          cafe_rating_coffee := float_mean (ratings_set rating_coffee (active_reviews d self)),
          rating_count := length (active_reviews d self)\<rparr>"

definition counts :: "db \<Rightarrow> (uuid \<times> int) list" where
  "counts d = map (\<lambda>r. (location_pk r, int (cafe_count r))) (locations d)"

definition keys_unique :: "db \<Rightarrow> bool" where
  "keys_unique d =
     (distinct (map cafe_pk (cafes d)) \<and> distinct (map review_pk (reviews d)))"

definition references_intact :: "db \<Rightarrow> bool" where
  "references_intact d = list_all (foreign_keys_ok d) (reviews d)"

text \<open>
  A cafe with key 1 at location 10, as its row is after creation; reviews of that cafe;
  databases with the users 1 to 4 and the location 10 (and 20), with no cafe, with one
  cafe row and given counts, and with one cafe row and given reviews.
\<close>

definition cafe0 :: cafe where
  "cafe0 = \<lparr>cafe_pk = 1, slug = ''kiez'', location_id = 10, is_active = True,
             rating_avg = PyDecimal 0, rating_count = 0, cafe_rating_wifi = PyDecimal 0,
             cafe_rating_power = PyDecimal 0, cafe_rating_noise = PyDecimal 0,
             cafe_rating_coffee = PyDecimal 0\<rparr>"

definition mk_review :: "uuid \<Rightarrow> uuid \<Rightarrow> nat \<Rightarrow> nat option \<Rightarrow> bool \<Rightarrow> review" where
  "mk_review pk user overall wifi active =
     \<lparr>review_pk = pk, cafe_id = 1, user_id = user, rating_overall = overall,
      rating_wifi = wifi, rating_power = None, rating_noise = None, rating_coffee = None,
      review_text = [113, 117, 105, 101, 116, 32, 112, 108, 97, 99, 101],
      review_is_active = active\<rparr>"

definition db_no_cafe :: db where
  "db_no_cafe = \<lparr>users = [1, 2, 3, 4], locations = [\<lparr>location_pk = 10, cafe_count = 0\<rparr>],
                  cafes = [], reviews = []\<rparr>"

definition db_one :: "cafe \<Rightarrow> nat \<Rightarrow> db" where
  "db_one c n = \<lparr>users = [1, 2, 3, 4], locations = [\<lparr>location_pk = 10, cafe_count = n\<rparr>],
                 cafes = [c], reviews = []\<rparr>"

definition db_two :: "cafe \<Rightarrow> nat \<Rightarrow> nat \<Rightarrow> db" where
  "db_two c n m = \<lparr>users = [1, 2, 3, 4],
                   locations = [\<lparr>location_pk = 10, cafe_count = n\<rparr>,
                                \<lparr>location_pk = 20, cafe_count = m\<rparr>],
                   cafes = [c], reviews = []\<rparr>"

definition db_reviews :: "cafe \<Rightarrow> review list \<Rightarrow> db" where
  "db_reviews c rs = \<lparr>users = [1, 2, 3, 4], locations = [\<lparr>location_pk = 10, cafe_count = 1\<rparr>],
                      cafes = [c], reviews = rs\<rparr>"

text \<open>
  The scenario of three active reviews rated 5, 4 and 2, two of which rate the wifi (5 and
  4), beside an inactive one; the cafe object after the recompute, which holds the doubles
  nearest to \<open>11/3\<close> and to \<open>9/2\<close>, and the cafe row after it.
\<close>

definition reviews_542 :: "review list" where
  "reviews_542 = [mk_review 11 1 5 (Some 5) True, mk_review 12 2 4 (Some 4) True,
                  mk_review 13 3 2 None True, mk_review 14 4 1 (Some 1) False]"

definition cafe_object_542 :: cafe where
  "cafe_object_542 =
     cafe0\<lparr>rating_avg := PyFloat (8256599316845909 / 2251799813685248), rating_count := 3,
           cafe_rating_wifi := PyFloat (9 / 2), cafe_rating_power := PyInt 0,
           cafe_rating_noise := PyInt 0, cafe_rating_coffee := PyInt 0\<rparr>"

definition cafe_stored_542 :: cafe where
  "cafe_stored_542 =
     cafe0\<lparr>rating_avg := PyDecimal (367 / 100), rating_count := 3,
           cafe_rating_wifi := PyDecimal (9 / 2)\<rparr>"

section \<open>Location counter\<close>

lemma update_location_Inr:
  assumes "update_location_cafe_count d (Some l) k = Inr d'"
  shows "cafes d' = cafes d" and "reviews d' = reviews d" and "users d' = users d"
    and "counts d' = map (\<lambda>(p, n). (p, n + (if p = l then k else 0))) (counts d)"
proof -
  from assms have ok: "\<forall>r \<in> set (locations d). location_pk r = l \<longrightarrow> 0 \<le> int (cafe_count r) + k"
    and d': "d' = d\<lparr>locations :=
                 map (\<lambda>r. if location_pk r = l
                            then r\<lparr>cafe_count := nat (int (cafe_count r) + k)\<rparr> else r)
                     (locations d)\<rparr>"
    by (auto simp add: update_location_cafe_count_def list_ex_iff not_less split: if_splits)
  from d' show "cafes d' = cafes d" and "reviews d' = reviews d" and "users d' = users d"
    by simp_all
  from ok show "counts d' = map (\<lambda>(p, n). (p, n + (if p = l then k else 0))) (counts d)"
    by (simp add: d' counts_def)
qed

lemma update_location_Inl:
  assumes "update_location_cafe_count d (Some l) k = Inl e"
  shows "e = IntegrityError
       \<and> (\<exists>r \<in> set (locations d). location_pk r = l \<and> int (cafe_count r) + k < 0)"
  using assms
  by (auto simp add: update_location_cafe_count_def list_ex_iff split: if_splits)

lemma update_location_increment:
  "\<exists>d'. update_location_cafe_count d (Some l) 1 = Inr d'"
  by (simp add: update_location_cafe_count_def list_ex_iff)


lemma post_save_created:
  assumes "cafe_post_save d i True old = Inr d'"
  shows "cafes d' = cafes d" and "reviews d' = reviews d" and "users d' = users d"
    and "counts d' =
           map (\<lambda>(p, n). (p, n + (if is_active i \<and> p = location_id i then 1 else 0))) (counts d)"
proof -
  show "cafes d' = cafes d" and "reviews d' = reviews d" and "users d' = users d"
    using assms update_location_Inr(1-3)[of d "location_id i" 1 d']
    by (auto simp add: cafe_post_save_def split: if_splits sum.splits)
  show "counts d' =
           map (\<lambda>(p, n). (p, n + (if is_active i \<and> p = location_id i then 1 else 0))) (counts d)"
  proof (cases "is_active i")
    case True
    with assms have "update_location_cafe_count d (Some (location_id i)) 1 = Inr d'"
      by (simp add: cafe_post_save_def split: sum.splits)
    from update_location_Inr(4)[OF this] True show ?thesis by simp
  next
    case False
    with assms have "d' = d" by (simp add: cafe_post_save_def)
    with False show ?thesis by (simp add: case_prod_unfold)
  qed
qed

lemma post_save_created_total: "\<exists>d'. cafe_post_save d i True old = Inr d'"
  using update_location_increment[of d "location_id i"]
  by (auto simp add: cafe_post_save_def)

lemma post_save_updated:
  assumes "cafe_post_save d i False (Some l0, Some a0) = Inr d'"
  shows "cafes d' = cafes d" and "reviews d' = reviews d" and "users d' = users d"
    and "counts d' =
           map (\<lambda>(p, n). (p, n + ((if is_active i \<and> p = location_id i then 1 else 0)
                                   - (if a0 \<and> p = l0 then 1 else 0)))) (counts d)"
proof -
  have frame: "cafes d' = cafes d \<and> reviews d' = reviews d \<and> users d' = users d"
    and cnt: "counts d' =
           map (\<lambda>(p, n). (p, n + ((if is_active i \<and> p = location_id i then 1 else 0)
                                   - (if a0 \<and> p = l0 then 1 else 0)))) (counts d)"
  proof -
    consider (move) "l0 \<noteq> location_id i" | (same) "l0 = location_id i" by blast
    then have "(cafes d' = cafes d \<and> reviews d' = reviews d \<and> users d' = users d)
       \<and> counts d' =
           map (\<lambda>(p, n). (p, n + ((if is_active i \<and> p = location_id i then 1 else 0)
                                   - (if a0 \<and> p = l0 then 1 else 0)))) (counts d)"
    proof cases
      case move
      define r1 where "r1 = (if a0 then update_location_cafe_count d (Some l0) (- 1) else Inr d)"
      from assms move obtain d1 where r1: "r1 = Inr d1"
        and r2: "(if is_active i
                  then (case update_location_cafe_count d1 (Some (location_id i)) 1 of
                          Inl e \<Rightarrow> Inl (e, d1) | Inr d2 \<Rightarrow> Inr d2)
                  else Inr d1) = Inr d'"
        by (auto simp add: cafe_post_save_def r1_def Let_def split: sum.splits if_splits)
      have s1: "(cafes d1 = cafes d \<and> reviews d1 = reviews d \<and> users d1 = users d)
         \<and> counts d1 = map (\<lambda>(p, n). (p, n - (if a0 \<and> p = l0 then 1 else 0))) (counts d)"
      proof (cases a0)
        case True
        with r1 have "update_location_cafe_count d (Some l0) (- 1) = Inr d1"
          by (simp add: r1_def)
        from update_location_Inr[OF this] True show ?thesis
          by (auto simp add: case_prod_unfold)
      next
        case False
        with r1 have "d1 = d" by (simp add: r1_def)
        with False show ?thesis by (simp add: case_prod_unfold)
      qed
      have s2: "(cafes d' = cafes d1 \<and> reviews d' = reviews d1 \<and> users d' = users d1)
         \<and> counts d' = map (\<lambda>(p, n). (p, n + (if is_active i \<and> p = location_id i then 1 else 0)))
                         (counts d1)"
      proof (cases "is_active i")
        case True
        with r2 have "update_location_cafe_count d1 (Some (location_id i)) 1 = Inr d'"
          by (simp split: sum.splits)
        from update_location_Inr[OF this] True show ?thesis
          by (auto simp add: case_prod_unfold)
      next
        case False
        with r2 have "d' = d1" by simp
        with False show ?thesis by (simp add: case_prod_unfold)
      qed
      from s1 s2 show ?thesis by (auto simp add: case_prod_unfold)
    next
      case same
      show ?thesis
      proof (cases "a0 = is_active i")
        case True
        with assms same have "d' = d" by (simp add: cafe_post_save_def Let_def)
        with True same show ?thesis by (simp add: case_prod_unfold)
      next
        case False
        define k :: int where "k = (if is_active i then 1 else - 1)"
        from assms same False
        have "(case update_location_cafe_count d (Some (location_id i)) k of
                 Inl e \<Rightarrow> Inl (e, d) | Inr d1 \<Rightarrow> Inr d1) = Inr d'"
          by (simp add: cafe_post_save_def Let_def k_def)
        then have "update_location_cafe_count d (Some (location_id i)) k = Inr d'"
          by (simp split: sum.splits)
        from update_location_Inr[OF this] False same show ?thesis
          by (auto simp add: case_prod_unfold k_def)
      qed
    qed
    then show "cafes d' = cafes d \<and> reviews d' = reviews d \<and> users d' = users d"
      and "counts d' =
           map (\<lambda>(p, n). (p, n + ((if is_active i \<and> p = location_id i then 1 else 0)
                                   - (if a0 \<and> p = l0 then 1 else 0)))) (counts d)"
      by simp_all
  qed
  from frame show "cafes d' = cafes d" and "reviews d' = reviews d" and "users d' = users d"
    by simp_all
  from cnt show "counts d' =
           map (\<lambda>(p, n). (p, n + ((if is_active i \<and> p = location_id i then 1 else 0)
                                   - (if a0 \<and> p = l0 then 1 else 0)))) (counts d)" .
qed

lemma post_save_updated_Inl:
  assumes "cafe_post_save d i False (Some l0, Some a0) = Inl (e, d1)"
  shows "e = IntegrityError \<and> d1 = d \<and> a0
       \<and> (\<exists>r \<in> set (locations d). location_pk r = l0 \<and> cafe_count r = 0)"
proof (cases "l0 = location_id i")
  case True
  define k :: int where "k = (if is_active i then 1 else - 1)"
  have ne: "a0 \<noteq> is_active i"
  proof
    assume "a0 = is_active i"
    with assms True show False by (simp add: cafe_post_save_def Let_def)
  qed
  with assms True
  have "(case update_location_cafe_count d (Some (location_id i)) k of
           Inl e \<Rightarrow> Inl (e, d) | Inr d1 \<Rightarrow> Inr d1) = Inl (e, d1)"
    by (simp add: cafe_post_save_def Let_def k_def)
  then have u: "update_location_cafe_count d (Some (location_id i)) k = Inl e" and "d1 = d"
    by (simp_all split: sum.splits)
  have na: "\<not> is_active i"
  proof
    assume "is_active i"
    with u update_location_increment[of d "location_id i"] show False by (auto simp add: k_def)
  qed
  with ne have a0 by simp
  from update_location_Inl[OF u] na
  have "e = IntegrityError"
    and "\<exists>r \<in> set (locations d). location_pk r = location_id i \<and> cafe_count r = 0"
    by (auto simp add: k_def)
  with True \<open>d1 = d\<close> \<open>a0\<close> show ?thesis by simp
next
  case False
  define r1 where "r1 = (if a0 then update_location_cafe_count d (Some l0) (- 1) else Inr d)"
  from assms False
  have c: "(case r1 of
              Inl e \<Rightarrow> Inl (e, d)
            | Inr d1 \<Rightarrow>
                if is_active i
                then (case update_location_cafe_count d1 (Some (location_id i)) 1 of
                        Inl e \<Rightarrow> Inl (e, d1) | Inr d2 \<Rightarrow> Inr d2)
                else Inr d1) = Inl (e, d1)"
    by (simp add: cafe_post_save_def Let_def r1_def)
  have "r1 = Inl e \<and> d1 = d"
  proof (cases r1)
    case (Inl e')
    with c show ?thesis by simp
  next
    case (Inr d2)
    from update_location_increment[of d2 "location_id i"] obtain d3 where
      "update_location_cafe_count d2 (Some (location_id i)) 1 = Inr d3" by blast
    with c Inr show ?thesis by (simp split: if_splits)
  qed
  then have r1: "r1 = Inl e" and "d1 = d" by simp_all
  have a0
  proof (rule ccontr)
    assume "\<not> a0"
    with r1 show False by (simp add: r1_def)
  qed
  with r1 have u: "update_location_cafe_count d (Some l0) (- 1) = Inl e" by (simp add: r1_def)
  from update_location_Inl[OF u]
  have "e = IntegrityError" and "\<exists>r \<in> set (locations d). location_pk r = l0 \<and> cafe_count r = 0"
    by auto
  with \<open>d1 = d\<close> \<open>a0\<close> show ?thesis by simp
qed


lemma map_other_keys:
  "k \<notin> cafe_pk ` set cs \<Longrightarrow> map (\<lambda>c. if cafe_pk c = k then new else c) cs = cs"
  by (induction cs) auto

lemma find_key_mem: "find (\<lambda>c. cafe_pk c = k) cs = Some old \<Longrightarrow> old \<in> set cs \<and> cafe_pk old = k"
  by (induction cs) (auto split: if_splits)

lemma count_replace:
  assumes "distinct (map cafe_pk cs)" and "find (\<lambda>c. cafe_pk c = k) cs = Some old"
  shows "int (length (filter P (map (\<lambda>c. if cafe_pk c = k then new else c) cs))) =
         int (length (filter P cs)) - (if P old then 1 else 0) + (if P new then 1 else 0)"
  using assms
proof (induction cs)
  case Nil
  then show ?case by simp
next
  case (Cons a cs)
  show ?case
  proof (cases "cafe_pk a = k")
    case True
    with Cons.prems have "a = old" and "k \<notin> cafe_pk ` set cs" by auto
    then show ?thesis using True by (simp add: map_other_keys)
  next
    case False
    with Cons.prems have "distinct (map cafe_pk cs)"
      and "find (\<lambda>c. cafe_pk c = k) cs = Some old" by auto
    from Cons.IH[OF this] False show ?thesis by (auto split: if_splits)
  qed
qed

lemma filter_other_keys:
  "k \<notin> cafe_pk ` set cs \<Longrightarrow> filter (\<lambda>c. cafe_pk c \<noteq> k) cs = cs"
  by (induction cs) auto

lemma count_remove:
  assumes "distinct (map cafe_pk cs)" and "old \<in> set cs"
  shows "int (length (filter P (filter (\<lambda>c. cafe_pk c \<noteq> cafe_pk old) cs))) =
         int (length (filter P cs)) - (if P old then 1 else 0)"
  using assms
proof (induction cs)
  case Nil
  then show ?case by simp
next
  case (Cons a cs)
  show ?case
  proof (cases "a = old")
    case True
    with Cons.prems have "cafe_pk old \<notin> cafe_pk ` set cs" by auto
    then have "filter (\<lambda>c. cafe_pk c \<noteq> cafe_pk old) cs = cs"
      by (rule filter_other_keys)
    with True show ?thesis by simp
  next
    case False
    with Cons.prems have d: "distinct (map cafe_pk cs)" and m: "old \<in> set cs" by auto
    with Cons.prems have "cafe_pk a \<noteq> cafe_pk old" by force
    with Cons.IH[OF d m] show ?thesis by (auto split: if_splits)
  qed
qed

lemma cafe_row_fields:
  assumes "cafe_row i = Some new"
  shows "cafe_pk new = cafe_pk i \<and> location_id new = location_id i \<and> is_active new = is_active i
       \<and> slug new = slug i \<and> rating_count new = rating_count i"
  using assms by (auto simp add: cafe_row_def split: option.splits)

lemma counts_consistent_iff:
  "counts_consistent d \<longleftrightarrow> (\<forall>(p, n) \<in> set (counts d). n = int (active_cafes_at d p))"
  by (auto simp add: counts_consistent_def counts_def list_all_iff)

lemma consistent_bumped:
  assumes "counts d' = map (\<lambda>(p, n). (p, n + f p)) (counts d)"
    and "counts_consistent d"
    and "\<And>l. int (active_cafes_at d' l) = int (active_cafes_at d l) + f l"
  shows "counts_consistent d'"
  using assms(2,3) by (auto simp add: counts_consistent_iff assms(1))




lemma counts_cafes_update [simp]: "counts (d\<lparr>cafes := cs\<rparr>) = counts d"
  by (simp add: counts_def)

lemma counts_reviews_update [simp]: "counts (d\<lparr>reviews := rs\<rparr>) = counts d"
  by (simp add: counts_def)

lemma cafe_save_cases:
  "cafe_save d i adding =
     (case cafe_row i of
        None \<Rightarrow> Inl (InvalidOperation, d)
      | Some new \<Rightarrow>
          (case find (\<lambda>c. cafe_pk c = cafe_pk i) (cafes d) of
             Some old \<Rightarrow>
               if adding \<or> \<not> location_exists d (location_id i) \<or> slug_taken d i
               then Inl (IntegrityError, d)
               else cafe_post_save
                      (d\<lparr>cafes := map (\<lambda>c. if cafe_pk c = cafe_pk i then new else c) (cafes d)\<rparr>)
                      i False (Some (location_id old), Some (is_active old))
           | None \<Rightarrow>
               if \<not> location_exists d (location_id i) \<or> slug_taken d i
               then Inl (IntegrityError, d)
               else cafe_post_save (d\<lparr>cafes := cafes d @ [new]\<rparr>) i True (None, None)))"
  by (auto simp add: cafe_save_def cafe_exists_def cafe_pre_save_def Let_def
      split: option.splits)

lemma cafe_save_update:
  assumes "find (\<lambda>c. cafe_pk c = cafe_pk i) (cafes d) = Some old"
    and "cafe_save d i adding = Inr d'"
  shows "\<exists>new. cafe_row i = Some new
     \<and> cafes d' = map (\<lambda>c. if cafe_pk c = cafe_pk i then new else c) (cafes d)
     \<and> reviews d' = reviews d \<and> users d' = users d
     \<and> counts d' =
         map (\<lambda>(p, n). (p, n + ((if is_active i \<and> p = location_id i then 1 else 0)
                                 - (if is_active old \<and> p = location_id old then 1 else 0))))
             (counts d)"
proof -
  from assms obtain new where row: "cafe_row i = Some new"
    and ps: "cafe_post_save
               (d\<lparr>cafes := map (\<lambda>c. if cafe_pk c = cafe_pk i then new else c) (cafes d)\<rparr>)
               i False (Some (location_id old), Some (is_active old)) = Inr d'"
    by (auto simp add: cafe_save_cases split: option.splits if_splits)
  from post_save_updated[OF ps] row show ?thesis by simp
qed

lemma cafe_save_create:
  assumes "find (\<lambda>c. cafe_pk c = cafe_pk i) (cafes d) = None"
    and "cafe_save d i adding = Inr d'"
  shows "\<exists>new. cafe_row i = Some new
     \<and> cafes d' = cafes d @ [new]
     \<and> reviews d' = reviews d \<and> users d' = users d
     \<and> counts d' =
         map (\<lambda>(p, n). (p, n + (if is_active i \<and> p = location_id i then 1 else 0))) (counts d)"
proof -
  from assms obtain new where row: "cafe_row i = Some new"
    and ps: "cafe_post_save (d\<lparr>cafes := cafes d @ [new]\<rparr>) i True (None, None) = Inr d'"
    by (auto simp add: cafe_save_cases split: option.splits if_splits)
  from post_save_created[OF ps] row show ?thesis by simp
qed

lemma cafe_save_Inl:
  assumes "cafe_save d i adding = Inl (e, d1)"
  shows "d1 = d
       \<or> (\<exists>old new. find (\<lambda>c. cafe_pk c = cafe_pk i) (cafes d) = Some old
             \<and> cafe_row i = Some new \<and> e = IntegrityError \<and> is_active old
             \<and> d1 = d\<lparr>cafes := map (\<lambda>c. if cafe_pk c = cafe_pk i then new else c) (cafes d)\<rparr>
             \<and> (\<exists>r \<in> set (locations d). location_pk r = location_id old \<and> cafe_count r = 0))"
proof (cases "cafe_row i")
  case None
  with assms show ?thesis by (simp add: cafe_save_cases)
next
  case (Some new)
  show ?thesis
  proof (cases "find (\<lambda>c. cafe_pk c = cafe_pk i) (cafes d)")
    case None
    from post_save_created_total[of "d\<lparr>cafes := cafes d @ [new]\<rparr>" i "(None, None)"]
    obtain d2 where "cafe_post_save (d\<lparr>cafes := cafes d @ [new]\<rparr>) i True (None, None) = Inr d2"
      by blast
    with assms Some None show ?thesis by (simp add: cafe_save_cases split: if_splits)
  next
    case old: (Some old)
    show ?thesis
    proof (cases "adding \<or> \<not> location_exists d (location_id i) \<or> slug_taken d i")
      case True
      with assms Some old show ?thesis by (auto simp add: cafe_save_cases)
    next
      case False
      with assms Some old
      have "cafe_post_save
              (d\<lparr>cafes := map (\<lambda>c. if cafe_pk c = cafe_pk i then new else c) (cafes d)\<rparr>)
              i False (Some (location_id old), Some (is_active old)) = Inl (e, d1)"
        by (simp add: cafe_save_cases)
      from post_save_updated_Inl[OF this] Some old show ?thesis by simp
    qed
  qed
qed

lemma consistent_no_zero:
  assumes "counts_consistent d" and "old \<in> set (cafes d)" and "is_active old"
    and "r \<in> set (locations d)" and "location_pk r = location_id old"
  shows "cafe_count r \<noteq> 0"
proof -
  from assms(2,3) have "filter (\<lambda>c. is_active c \<and> location_id c = location_id old) (cafes d) \<noteq> []"
    by (auto simp add: filter_empty_conv)
  then have "0 < active_cafes_at d (location_id old)" by (simp add: active_cafes_at_def)
  moreover from assms(1,4,5) have "cafe_count r = active_cafes_at d (location_id old)"
    by (auto simp add: counts_consistent_def list_all_iff)
  ultimately show ?thesis by simp
qed

lemma cafe_save_Inl_consistent:
  assumes "counts_consistent d" and "cafe_save d i adding = Inl (e, d1)"
  shows "d1 = d"
proof (rule ccontr)
  assume "d1 \<noteq> d"
  with cafe_save_Inl[OF assms(2)] obtain old r where
    f: "find (\<lambda>c. cafe_pk c = cafe_pk i) (cafes d) = Some old" and a: "is_active old"
    and r: "r \<in> set (locations d)" "location_pk r = location_id old" "cafe_count r = 0"
    by blast
  from find_key_mem[OF f] have "old \<in> set (cafes d)" by simp
  from consistent_no_zero[OF assms(1) this a r(1,2)] r(3) show False by simp
qed

lemma map_replace_keys:
  "cafe_pk new = k \<Longrightarrow>
     map cafe_pk (map (\<lambda>c. if cafe_pk c = k then new else c) cs) = map cafe_pk cs"
  by (induction cs) auto

lemma cafe_save_preserves:
  assumes inv: "counts_consistent d" and dist: "distinct (map cafe_pk (cafes d))"
    and save: "cafe_save d i adding = Inr d'"
  shows "counts_consistent d' \<and> distinct (map cafe_pk (cafes d'))"
proof (cases "find (\<lambda>c. cafe_pk c = cafe_pk i) (cafes d)")
  case None
  from cafe_save_create[OF None save] obtain new where
    row: "cafe_row i = Some new" and cs: "cafes d' = cafes d @ [new]"
    and ls: "counts d' =
         map (\<lambda>(p, n). (p, n + (\<lambda>p. if is_active i \<and> p = location_id i then 1 else 0) p))
             (counts d)" by auto
  note f = cafe_row_fields[OF row]
  have cnt: "\<And>l. int (active_cafes_at d' l) =
      int (active_cafes_at d l) + (if is_active i \<and> l = location_id i then 1 else 0)"
    using f by (auto simp add: active_cafes_at_def cs)
  have "counts_consistent d'" by (rule consistent_bumped[OF ls inv cnt])
  moreover from None have "cafe_pk i \<notin> cafe_pk ` set (cafes d)"
    by (auto simp add: find_None_iff)
  with dist f have "distinct (map cafe_pk (cafes d'))" by (simp add: cs)
  ultimately show ?thesis by simp
next
  case (Some old)
  from cafe_save_update[OF Some save] obtain new where
    row: "cafe_row i = Some new"
    and cs: "cafes d' = map (\<lambda>c. if cafe_pk c = cafe_pk i then new else c) (cafes d)"
    and ls: "counts d' =
         map (\<lambda>(p, n). (p, n + (\<lambda>p. (if is_active i \<and> p = location_id i then 1 else 0)
                  - (if is_active old \<and> p = location_id old then 1 else 0)) p))
             (counts d)" by auto
  note f = cafe_row_fields[OF row]
  have cnt: "\<And>l. int (active_cafes_at d' l) =
      int (active_cafes_at d l)
      + ((if is_active i \<and> l = location_id i then 1 else 0)
         - (if is_active old \<and> l = location_id old then 1 else 0))"
    using f count_replace[OF dist Some, of _ new]
    by (auto simp add: active_cafes_at_def cs)
  have "counts_consistent d'" by (rule consistent_bumped[OF ls inv cnt])
  moreover have "map cafe_pk (cafes d') = map cafe_pk (cafes d)"
    unfolding cs using f by (intro map_replace_keys) simp
  with dist have "distinct (map cafe_pk (cafes d'))" by simp
  ultimately show ?thesis by simp
qed

lemma cafe_delete_preserves:
  assumes inv: "counts_consistent d" and dist: "distinct (map cafe_pk (cafes d))"
    and row: "i \<in> set (cafes d)"
  shows "\<exists>d'. cafe_delete d i = Inr d' \<and> counts_consistent d'
            \<and> distinct (map cafe_pk (cafes d'))"
proof -
  define d0 where "d0 = d\<lparr>cafes := filter (\<lambda>c. cafe_pk c \<noteq> cafe_pk i) (cafes d),
                           reviews := filter (\<lambda>r. cafe_id r \<noteq> cafe_pk i) (reviews d)\<rparr>"
  have del: "cafe_delete d i = cafe_post_delete d0 i" by (simp add: cafe_delete_def d0_def)
  have l0: "locations d0 = locations d" and c0: "counts d0 = counts d"
    and cs0: "cafes d0 = filter (\<lambda>c. cafe_pk c \<noteq> cafe_pk i) (cafes d)"
    by (simp_all add: d0_def counts_def)
  have "\<exists>d'. cafe_post_delete d0 i = Inr d' \<and> cafes d' = cafes d0
          \<and> counts d' = map (\<lambda>(p, n). (p, n + (\<lambda>p. - (if is_active i \<and> p = location_id i
                                                         then 1 else 0)) p)) (counts d0)"
  proof (cases "is_active i")
    case False
    then show ?thesis by (simp add: cafe_post_delete_def case_prod_unfold)
  next
    case True
    have "\<exists>d'. update_location_cafe_count d0 (Some (location_id i)) (- 1) = Inr d'"
    proof (cases "update_location_cafe_count d0 (Some (location_id i)) (- 1)")
      case (Inr d')
      then show ?thesis by simp
    next
      case (Inl e)
      from update_location_Inl[OF Inl] obtain r where
        "r \<in> set (locations d)" "location_pk r = location_id i" "cafe_count r = 0"
        by (auto simp add: l0)
      with consistent_no_zero[OF inv row True] show ?thesis by blast
    qed
    then obtain d' where u: "update_location_cafe_count d0 (Some (location_id i)) (- 1) = Inr d'"
      by blast
    from update_location_Inr[OF u] u True show ?thesis
      by (auto simp add: cafe_post_delete_def case_prod_unfold)
  qed
  then obtain d' where pd: "cafe_post_delete d0 i = Inr d'" and cs: "cafes d' = cafes d0"
    and ls: "counts d' = map (\<lambda>(p, n). (p, n + (\<lambda>p. - (if is_active i \<and> p = location_id i
                                                         then 1 else 0)) p)) (counts d)"
    by (auto simp add: c0)
  have cnt: "\<And>l. int (active_cafes_at d' l) =
      int (active_cafes_at d l) + (- (if is_active i \<and> l = location_id i then 1 else 0))"
    using count_remove[OF dist row]
    by (auto simp add: active_cafes_at_def cs cs0)
  have "counts_consistent d'" by (rule consistent_bumped[OF ls inv cnt])
  moreover from dist have "distinct (map cafe_pk (cafes d'))"
    by (simp add: cs cs0 distinct_map_filter)
  ultimately show ?thesis using pd del by simp
qed

lemma round_half_even_zero: "round_half_even 0 = 0"
  by (simp add: round_half_even_def)

lemma get_db_prep_save_zero:
  "get_db_prep_save (PyDecimal 0) = Some (PyDecimal 0)"
  "get_db_prep_save (PyInt 0) = Some (PyDecimal 0)"
  by (simp_all add: get_db_prep_save_def format_number_def to_python_def round_half_even_zero)

lemma cafe_row_zero:
  assumes "rating_avg i = PyDecimal 0" "cafe_rating_wifi i = PyDecimal 0"
    "cafe_rating_power i = PyDecimal 0" "cafe_rating_noise i = PyDecimal 0"
    "cafe_rating_coffee i = PyDecimal 0"
  shows "cafe_row i = Some i"
  using assms by (simp add: cafe_row_def get_db_prep_save_zero)

lemma scenario_create: "cafe_save db_no_cafe cafe0 True = Inr (db_one cafe0 1)"
  by (simp add: cafe_save_def cafe_row_zero cafe_exists_def cafe_pre_save_def
      location_exists_def slug_taken_def
      cafe_post_save_def update_location_cafe_count_def db_no_cafe_def db_one_def cafe0_def)

lemma scenario_deactivate:
  "cafe_save (db_one cafe0 1) (cafe0\<lparr>is_active := False\<rparr>) False
     = Inr (db_one (cafe0\<lparr>is_active := False\<rparr>) 0)"
  by (simp add: cafe_save_def cafe_row_zero cafe_exists_def cafe_pre_save_def
      location_exists_def slug_taken_def
      cafe_post_save_def update_location_cafe_count_def db_one_def cafe0_def)

lemma scenario_reactivate:
  "cafe_save (db_one (cafe0\<lparr>is_active := False\<rparr>) 0) cafe0 False = Inr (db_one cafe0 1)"
  by (simp add: cafe_save_def cafe_row_zero cafe_exists_def cafe_pre_save_def
      location_exists_def slug_taken_def
      cafe_post_save_def update_location_cafe_count_def db_one_def cafe0_def)

lemma scenario_delete: "cafe_delete (db_one cafe0 1) cafe0 = Inr db_no_cafe"
  by (simp add: cafe_delete_def cafe_post_delete_def update_location_cafe_count_def
      db_one_def db_no_cafe_def cafe0_def)


lemma scenario_move_inactive:
  "cafe_save (db_two (cafe0\<lparr>is_active := False\<rparr>) 1 1)
             (cafe0\<lparr>location_id := 20, is_active := False\<rparr>) False
     = Inr (db_two (cafe0\<lparr>location_id := 20, is_active := False\<rparr>) 1 1)"
  by (simp add: cafe_save_def cafe_row_zero cafe_exists_def cafe_pre_save_def
      location_exists_def slug_taken_def
      cafe_post_save_def update_location_cafe_count_def db_two_def cafe0_def)


text \<open>
  Claim C7. A cafe that is stored inactive at location \<open>L1\<close> and is saved inactive with
  location \<open>L2\<close> leaves every location row as it is; in particular the counts of
  \<open>L1\<close> and of \<open>L2\<close> are unchanged.
\<close>

theorem inactive_move_keeps_counts:
  assumes "find (\<lambda>c. cafe_pk c = cafe_pk i) (cafes d) = Some old"
    and "location_id old = L1" and "location_id i = L2" and "L1 \<noteq> L2"
    and "\<not> is_active old" and "\<not> is_active i"
    and "cafe_save d i adding = Inr d'"
  shows "count_of d' L1 = count_of d L1 \<and> count_of d' L2 = count_of d L2
       \<and> locations d' = locations d"
proof -
  from assms(1,7) obtain new where
    "cafe_post_save
       (d\<lparr>cafes := map (\<lambda>c. if cafe_pk c = cafe_pk i then new else c) (cafes d)\<rparr>)
       i False (Some (location_id old), Some (is_active old)) = Inr d'"
    by (auto simp add: cafe_save_cases split: option.splits if_splits)
  with assms(2-6) have "locations d' = locations d"
    by (auto simp add: cafe_post_save_def Let_def)
  then show ?thesis by (simp add: count_of_def)
qed


text \<open>
  Claim C2. If every location row carries the number of active cafes that refer to it
  (and cafe keys are unique), then this holds again after a cafe has been saved (created,
  activated, deactivated, moved, or changed otherwise) and after a stored cafe has been
  deleted; a save that ends in an error has changed nothing, and the deletion of a stored
  cafe succeeds. In particular: a location with count 0; creating an active cafe gives 1,
  deactivating it 0, reactivating it 1, deleting it 0.
\<close>

theorem cafe_count_invariant:
  assumes "counts_consistent d" and "distinct (map cafe_pk (cafes d))"
  shows "(cafe_save d i adding = Inr d' \<longrightarrow>
            counts_consistent d' \<and> distinct (map cafe_pk (cafes d')))
       \<and> (cafe_save d i adding = Inl (e, d') \<longrightarrow> d' = d)
       \<and> (i \<in> set (cafes d) \<longrightarrow>
            (\<exists>d'. cafe_delete d i = Inr d' \<and> counts_consistent d'
                \<and> distinct (map cafe_pk (cafes d'))))
       \<and> cafe_save db_no_cafe cafe0 True = Inr (db_one cafe0 1)
       \<and> cafe_save (db_one cafe0 1) (cafe0\<lparr>is_active := False\<rparr>) False
           = Inr (db_one (cafe0\<lparr>is_active := False\<rparr>) 0)
       \<and> cafe_save (db_one (cafe0\<lparr>is_active := False\<rparr>) 0) cafe0 False = Inr (db_one cafe0 1)
       \<and> cafe_delete (db_one cafe0 1) cafe0 = Inr db_no_cafe"
  using cafe_save_preserves[OF assms] cafe_delete_preserves[OF assms]
    cafe_save_Inl_consistent[OF assms(1)]
    scenario_create scenario_deactivate scenario_reactivate scenario_delete
  by blast

theorem cafe_count_invariant_witness:
  "counts_consistent db_no_cafe \<and> counts_consistent (db_one cafe0 1)
   \<and> cafe_delete (db_one cafe0 1) cafe0 = Inr db_no_cafe
   \<and> count_of db_no_cafe 10 = Some 0 \<and> count_of (db_one cafe0 1) 10 = Some 1
   \<and> count_of (db_one (cafe0\<lparr>is_active := False\<rparr>) 0) 10 = Some 0"
proof -
  have a: "counts_consistent db_no_cafe"
    by (simp add: counts_consistent_def db_no_cafe_def active_cafes_at_def)
  have b: "distinct (map cafe_pk (cafes db_no_cafe))" by (simp add: db_no_cafe_def)
  from cafe_count_invariant[OF a b, of cafe0 True "db_one cafe0 1"]
  have c: "counts_consistent (db_one cafe0 1)"
    and e: "distinct (map cafe_pk (cafes (db_one cafe0 1)))"
    and del: "cafe_delete (db_one cafe0 1) cafe0 = Inr db_no_cafe" by simp_all
  have m: "cafe0 \<in> set (cafes (db_one cafe0 1))" by (simp add: db_one_def)
  from cafe_count_invariant[OF c e, of cafe0] m
  have "\<exists>d'. cafe_delete (db_one cafe0 1) cafe0 = Inr d' \<and> counts_consistent d'" by blast
  with a c del show ?thesis by (simp add: count_of_def db_no_cafe_def db_one_def)
qed



theorem inactive_move_keeps_counts_witness:
  "cafe_save (db_two (cafe0\<lparr>is_active := False\<rparr>) 1 1)
             (cafe0\<lparr>location_id := 20, is_active := False\<rparr>) False
     = Inr (db_two (cafe0\<lparr>location_id := 20, is_active := False\<rparr>) 1 1)
   \<and> count_of (db_two (cafe0\<lparr>location_id := 20, is_active := False\<rparr>) 1 1) 10
       = count_of (db_two (cafe0\<lparr>is_active := False\<rparr>) 1 1) 10
   \<and> count_of (db_two (cafe0\<lparr>location_id := 20, is_active := False\<rparr>) 1 1) 20
       = count_of (db_two (cafe0\<lparr>is_active := False\<rparr>) 1 1) 20"
proof -
  have f: "find (\<lambda>c. cafe_pk c = cafe_pk (cafe0\<lparr>location_id := 20, is_active := False\<rparr>))
                (cafes (db_two (cafe0\<lparr>is_active := False\<rparr>) 1 1))
             = Some (cafe0\<lparr>is_active := False\<rparr>)"
    by (simp add: db_two_def)
  have l1: "location_id (cafe0\<lparr>is_active := False\<rparr>) = 10"
    and l2: "location_id (cafe0\<lparr>location_id := 20, is_active := False\<rparr>) = 20"
    and ne: "(10::nat) \<noteq> 20"
    and a1: "\<not> is_active (cafe0\<lparr>is_active := False\<rparr>)"
    and a2: "\<not> is_active (cafe0\<lparr>location_id := 20, is_active := False\<rparr>)"
    by (simp_all add: cafe0_def)
  from inactive_move_keeps_counts[OF f l1 l2 ne a1 a2 scenario_move_inactive] scenario_move_inactive
  show ?thesis by simp
qed

end
